theory Spec2Isabelle
  imports Main "HOL-Library.AList" "HOL-Library.Char_ord" "HOL-Library.List_Lexorder"
begin

section \<open>The rooms replica of lib/cluster/index.js\<close>

text \<open>
  A JavaScript \<^verbatim>\<open>Map\<close> is an association list in insertion order: \<^verbatim>\<open>get\<close> is
  \<^const>\<open>map_of\<close>, \<^verbatim>\<open>set\<close> is \<^const>\<open>AList.update\<close> (an existing key keeps its
  place, a new one goes last), \<^verbatim>\<open>delete\<close> is \<^const>\<open>AList.delete\<close> and \<^verbatim>\<open>size\<close>
  is the length. A \<^verbatim>\<open>Set\<close> of room ids, which the code only tests for membership and
  emptiness, is a HOL set.
\<close>

type_synonym ('k, 'v) jsmap = "('k \<times> 'v) list"

text \<open>
  The value stored in \<^verbatim>\<open>_rooms.flat\<close>. Its count is what \<^verbatim>\<open>parseInt(_count, 10)\<close>
  gave: an integer, or \<^verbatim>\<open>NaN\<close>, written \<^term>\<open>None\<close>.
\<close>

record path =
  index :: string
  collection :: string

record room = path +
  count :: "int option"

record replica =
  flat :: "(string, room) jsmap"
  tree :: "(string, (string, string set) jsmap) jsmap"

datatype error = TypeError | RedisError | BadRequestError | NotFoundError

definition empty_rooms :: replica where
  "empty_rooms = \<lparr>flat = [], tree = []\<rparr>"

text \<open>
  \<^verbatim>\<open>deleteRoomCount (roomId)\<close>. The result is the exception thrown, if any, and the
  replica as the call leaves it: \<^verbatim>\<open>collections.get\<close> on an index the tree does not
  hold, or \<^verbatim>\<open>rooms.delete\<close> on a collection it does not hold, is a \<^verbatim>\<open>TypeError\<close>
  raised after the entry of \<^verbatim>\<open>flat\<close> is gone.
\<close>

definition deleteRoomCount :: "string \<Rightarrow> replica \<Rightarrow> error option \<times> replica" where
  "deleteRoomCount roomId s =
    (case map_of (flat s) roomId of
      None \<Rightarrow> (None, s)
    | Some room \<Rightarrow>
        (let s1 = s\<lparr>flat := AList.delete roomId (flat s)\<rparr> in
         case map_of (tree s1) (index room) of
           None \<Rightarrow> (Some TypeError, s1)
         | Some collections \<Rightarrow>
             (case map_of collections (collection room) of
               None \<Rightarrow> (Some TypeError, s1)
             | Some rs \<Rightarrow>
                 (let rs' = rs - {roomId} in
                  if rs' = {} then
                    (let collections' = AList.delete (collection room) collections in
                     if length collections' = 0
                     then (None, s1\<lparr>tree := AList.delete (index room) (tree s1)\<rparr>)
                     else (None, s1\<lparr>tree := AList.update (index room) collections' (tree s1)\<rparr>))
                  else
                    (None, s1\<lparr>tree := AList.update (index room)
                       (AList.update (collection room) rs' collections) (tree s1)\<rparr>)))))"

text \<open>
  \<^verbatim>\<open>setRoomCount (index, collection, roomId, _count)\<close>, with \<open>cnt\<close> the value of
  \<^verbatim>\<open>parseInt(_count, 10)\<close>. \<^verbatim>\<open>NaN === 0\<close> is false, so a count that did not parse is
  stored.
\<close>

definition setRoomCount ::
  "string \<Rightarrow> string \<Rightarrow> string \<Rightarrow> int option \<Rightarrow> replica \<Rightarrow> error option \<times> replica" where
  "setRoomCount idx col roomId cnt s =
    (if cnt = Some 0 then deleteRoomCount roomId s
     else
       (let val = \<lparr>index = idx, collection = col, count = cnt\<rparr>;
            flat' = AList.update roomId val (flat s);
            collections = (case map_of (tree s) idx of None \<Rightarrow> [] | Some cs \<Rightarrow> cs);
            collections1 = (case map_of collections col of
                              None \<Rightarrow> AList.update col {} collections
                            | Some rs \<Rightarrow> collections);
            collections2 = (case map_of collections1 col of
                              None \<Rightarrow> collections1
                            | Some rs \<Rightarrow> AList.update col (insert roomId rs) collections1)
        in (None, \<lparr>flat = flat', tree = AList.update idx collections2 (tree s)\<rparr>)))"

text \<open>\<^verbatim>\<open>tree.get(i)\<close> and then \<^verbatim>\<open>.get(c)\<close>, when both are there.\<close>

definition tree_get :: "replica \<Rightarrow> string \<Rightarrow> string \<Rightarrow> string set option" where
  "tree_get s i c = (case map_of (tree s) i of None \<Rightarrow> None | Some cs \<Rightarrow> map_of cs c)"

definition in_tree :: "replica \<Rightarrow> string \<Rightarrow> string \<Rightarrow> string \<Rightarrow> bool" where
  "in_tree s roomId i c = (case tree_get s i c of None \<Rightarrow> False | Some rs \<Rightarrow> roomId \<in> rs)"

subsection \<open>Sequences of calls\<close>

datatype call =
  SetRoomCount string string string "int option"
  | DeleteRoomCount string

fun apply_call :: "call \<Rightarrow> replica \<Rightarrow> error option \<times> replica" where
  "apply_call (SetRoomCount idx col roomId cnt) s = setRoomCount idx col roomId cnt s"
| "apply_call (DeleteRoomCount roomId) s = deleteRoomCount roomId s"

text \<open>
  The replica after a sequence of calls. A call that throws leaves the replica as it
  was at the throw, and the next call starts from there.
\<close>

fun run :: "call list \<Rightarrow> replica \<Rightarrow> replica" where
  "run [] s = s"
| "run (c # cs) s = run cs (snd (apply_call c s))"

text \<open>
  A call keeps the path of its room when it does not store a room id that \<^verbatim>\<open>flat\<close>
  already holds under another index or collection. A room id is a fingerprint of its
  index, collection and filter, so the callers of \<^verbatim>\<open>setRoomCount\<close> keep it.
\<close>

fun same_path :: "call \<Rightarrow> replica \<Rightarrow> bool" where
  "same_path (SetRoomCount idx col roomId cnt) s =
    (if cnt = Some 0 then True
     else case map_of (flat s) roomId of
            None \<Rightarrow> True
          | Some room \<Rightarrow> index room = idx \<and> collection room = col)"
| "same_path (DeleteRoomCount roomId) s = True"

fun keeps_path :: "call list \<Rightarrow> replica \<Rightarrow> bool" where
  "keeps_path [] s = True"
| "keeps_path (c # cs) s = (same_path c s \<and> keeps_path cs (snd (apply_call c s)))"

text \<open>Every room of \<^verbatim>\<open>flat\<close> is in the set of the tree at its own index and collection.\<close>

definition flat_in_tree :: "replica \<Rightarrow> bool" where
  "flat_in_tree s \<longleftrightarrow>
    (\<forall>roomId room. map_of (flat s) roomId = Some room \<longrightarrow>
       in_tree s roomId (index room) (collection room))"

text \<open>Every room id of a set of the tree is in \<^verbatim>\<open>flat\<close>, with the path of that set.\<close>

definition tree_in_flat :: "replica \<Rightarrow> bool" where
  "tree_in_flat s \<longleftrightarrow>
    (\<forall>roomId i c. in_tree s roomId i c \<longrightarrow>
       (\<exists>room. map_of (flat s) roomId = Some room \<and> index room = i \<and> collection room = c))"

text \<open>
  The invariant of the specification: a room of \<^verbatim>\<open>flat\<close> is in exactly one set of the
  tree, the one at its index and collection, and the sets of the tree hold rooms of
  \<^verbatim>\<open>flat\<close> only.
\<close>

definition replica_consistent :: "replica \<Rightarrow> bool" where
  "replica_consistent s \<longleftrightarrow>
    (\<forall>roomId room. map_of (flat s) roomId = Some room \<longrightarrow>
       (\<exists>!p. in_tree s roomId (fst p) (snd p)) \<and>
       in_tree s roomId (index room) (collection room)) \<and>
    (\<forall>roomId i c. in_tree s roomId i c \<longrightarrow> map_of (flat s) roomId \<noteq> None)"

section \<open>The cluster object\<close>

text \<open>
  What the handlers read and write on \<^verbatim>\<open>this\<close>, and the calls they make on their
  collaborators (the coordinator client \<^verbatim>\<open>this.redis\<close>, \<^verbatim>\<open>this.node\<close> and its state),
  kept in order in \<open>trace\<close>.
\<close>

datatype jsvalue = JUndefined | JNull | JBool bool | JNum int | JStr string

fun truthy :: "jsvalue \<Rightarrow> bool" where
  "truthy JUndefined = False"
| "truthy JNull = False"
| "truthy (JBool b) = b"
| "truthy (JNum n) = (n \<noteq> 0)"
| "truthy (JStr s) = (s \<noteq> [])"

text \<open>
  The fifth argument of the \<^verbatim>\<open>clusterSubOn\<close> script: the text \<^verbatim>\<open>'none'\<close>, or
  \<^verbatim>\<open>JSON.stringify({index, collection, filters})\<close>, kept as its three parts.
\<close>

datatype filter = FilterNone | FilterJSON string string string

datatype effect =
  Debug
  | Broadcast string "(string \<times> jsvalue) list"
  | ClusterSubOn string string string string filter
  | ClusterSubOff string string string string
  | ClusterCleanNode string string
  | Sadd string string
  | Srem string "(string \<times> jsvalue) list"
  | StateReset
  | Delay nat
  | Log string string

datatype 'a outcome = Resolved 'a | Rejected error | Thrown error

record identified =
  uuid :: string

record descriptor = identified +
  pub :: string
  router :: string

text \<open>
  \<open>ctx\<close> is \<^verbatim>\<open>this.context\<close>, which holds the error constructors when it is assigned;
  \<open>getVersion\<close> is \<^verbatim>\<open>this.node.state.getVersion\<close> and the locks are
  \<^verbatim>\<open>this.node.state.locks\<close>. The class of \<^verbatim>\<open>this.node\<close> and the one of its state are
  not among the sources: the version read is a field here, and \<^verbatim>\<open>state.reset()\<close> is an
  effect whose result is given to the functions that call it.
\<close>

record cluster = identified +
  ctx :: "unit option"
  node :: descriptor
  ready :: bool
  pool_size :: nat
  getVersion :: "string \<Rightarrow> string \<Rightarrow> int"
  locks_create :: "string set"
  locks_delete :: "string set"
  rooms :: replica
  shutdown :: bool
  waitForMissingRooms :: nat
  trace :: "effect list"

text \<open>
  The constructor: \<^verbatim>\<open>this.context\<close> is not among the fields it assigns, and no method
  of the class assigns it. The node it creates is not ready and has no peer yet: the
  startup sequence ends by setting \<^verbatim>\<open>ready\<close>.
\<close>

definition new_cluster :: "string \<Rightarrow> descriptor \<Rightarrow> (string \<Rightarrow> string \<Rightarrow> int) \<Rightarrow> nat \<Rightarrow> cluster" where
  "new_cluster u n versions wait =
    \<lparr>uuid = u, ctx = None, node = n, ready = False, pool_size = 0, getVersion = versions,
     locks_create = {}, locks_delete = {}, rooms = empty_rooms, shutdown = False,
     waitForMissingRooms = wait, trace = []\<rparr>"

definition emit :: "effect list \<Rightarrow> cluster \<Rightarrow> cluster" where
  "emit es this = this\<lparr>trace := trace this @ es\<rparr>"

definition tag :: "string \<Rightarrow> string \<Rightarrow> string" where
  "tag idx col = ''{'' @ idx @ ''/'' @ col @ ''}''"

subsection \<open>Plain objects\<close>

text \<open>
  A plain object is the list of its own properties in the order \<^verbatim>\<open>Object.keys\<close> gives
  them: the keys that are array indices first, by ascending number, then the other
  keys in the order they were created. An array index is the decimal text of an integer
  from 0 to \<open>2\<^sup>3\<^sup>2 - 2\<close>, without sign or leading zero. Keys are strings of 8-bit
  characters, ordered by their codes as \<^verbatim>\<open>sort()\<close> orders code units: the two orders
  agree on ASCII names.
\<close>

type_synonym 'v jsobject = "(string \<times> 'v) list"

definition is_digit :: "char \<Rightarrow> bool" where
  "is_digit c \<longleftrightarrow> CHR ''0'' \<le> c \<and> c \<le> CHR ''9''"

definition digits_value :: "string \<Rightarrow> nat" where
  "digits_value k = foldl (\<lambda>n c. 10 * n + (of_char c - 48)) 0 k"

definition array_index :: "string \<Rightarrow> nat option" where
  "array_index k =
    (if k \<noteq> [] \<and> list_all is_digit k \<and> (length k = 1 \<or> hd k \<noteq> CHR ''0'') \<and>
        digits_value k < 4294967295
     then Some (digits_value k) else None)"

fun insert_index :: "nat \<Rightarrow> string \<Rightarrow> 'v \<Rightarrow> 'v jsobject \<Rightarrow> 'v jsobject" where
  "insert_index n k v [] = [(k, v)]"
| "insert_index n k v (p # ps) =
    (case array_index (fst p) of
      None \<Rightarrow> (k, v) # p # ps
    | Some m \<Rightarrow> if m < n then p # insert_index n k v ps else (k, v) # p # ps)"

text \<open>The assignment \<^verbatim>\<open>o[k] = v\<close> on a plain object, for a key it can hold.\<close>

definition obj_set :: "string \<Rightarrow> 'v \<Rightarrow> 'v jsobject \<Rightarrow> 'v jsobject" where
  "obj_set k v ob =
    (case map_of ob k of
      Some w \<Rightarrow> AList.update k v ob
    | None \<Rightarrow>
        (case array_index k of
          None \<Rightarrow> ob @ [(k, v)]
        | Some n \<Rightarrow> insert_index n k v ob))"

definition own_keys :: "'v jsobject \<Rightarrow> string list" where
  "own_keys ob = map fst ob"

text \<open>\<^verbatim>\<open>{...base, ...payload}\<close>: the properties of \<open>payload\<close> assigned in turn.\<close>

definition spread :: "'v jsobject \<Rightarrow> 'v jsobject \<Rightarrow> 'v jsobject" where
  "spread base payload = fold (\<lambda>p ob. obj_set (fst p) (snd p) ob) payload base"

record request =
  body :: "jsvalue jsobject option"
  args :: "jsvalue jsobject"

subsection \<open>Hooks that broadcast\<close>

definition indexCacheAdded :: "jsvalue jsobject \<Rightarrow> cluster \<Rightarrow> cluster" where
  "indexCacheAdded payload this =
    (if \<not> ready this then emit [Debug] this
     else emit [Broadcast ''cluster:sync''
       (spread [(''event'', JStr ''indexCache:add'')] payload)] this)"

definition indexCacheRemoved :: "jsvalue jsobject \<Rightarrow> cluster \<Rightarrow> cluster" where
  "indexCacheRemoved payload this =
    (if \<not> ready this then emit [Debug] this
     else emit [Broadcast ''cluster:sync''
       (spread [(''event'', JStr ''indexCache:remove'')] payload)] this)"

definition notifyDocument :: "jsvalue jsobject \<Rightarrow> cluster \<Rightarrow> cluster" where
  "notifyDocument data this =
    (if \<not> ready this then emit [Debug] this
     else emit [Broadcast ''cluster:notify:document'' data] this)"

definition notifyUser :: "jsvalue jsobject \<Rightarrow> cluster \<Rightarrow> cluster" where
  "notifyUser data this =
    (if \<not> ready this then emit [Debug] this
     else emit [Broadcast ''cluster:notify:user'' data] this)"

text \<open>\<^verbatim>\<open>diff._id\<close>: \<^verbatim>\<open>undefined\<close> when the object has no such property.\<close>

definition get_id :: "jsvalue jsobject \<Rightarrow> jsvalue" where
  "get_id d = (case map_of d ''_id'' of None \<Rightarrow> JUndefined | Some v \<Rightarrow> v)"

definition profileUpdated :: "jsvalue jsobject \<Rightarrow> cluster \<Rightarrow> cluster" where
  "profileUpdated d this =
    (if \<not> ready this then emit [Debug] this
     else emit [Broadcast ''cluster:sync''
       [(''event'', JStr ''profile''), (''id'', get_id d)]] this)"

definition refreshSpecifications :: "cluster \<Rightarrow> cluster" where
  "refreshSpecifications this =
    (if \<not> ready this then emit [Debug] this
     else emit [Broadcast ''cluster:sync'' [(''event'', JStr ''validators'')]] this)"

definition roleUpdated :: "jsvalue jsobject \<Rightarrow> cluster \<Rightarrow> cluster" where
  "roleUpdated d this =
    (if \<not> ready this then emit [Debug] this
     else emit [Broadcast ''cluster:sync''
       [(''event'', JStr ''role''), (''id'', get_id d)]] this)"

definition resetSecurityCache :: "cluster \<Rightarrow> cluster" where
  "resetSecurityCache this = emit [Broadcast ''cluster:admin:resetSecurity'' []] this"

text \<open>\<^verbatim>\<open>request.input.args.suffix || ''\<close>.\<close>

definition dump :: "request \<Rightarrow> cluster \<Rightarrow> cluster" where
  "dump request this =
    (if \<not> ready this then emit [Debug] this
     else
       (let suffix = (case map_of (args request) ''suffix'' of
                        None \<Rightarrow> JStr []
                      | Some v \<Rightarrow> if truthy v then v else JStr [])
        in emit [Broadcast ''cluster:admin:dump'' [(''suffix'', suffix)]] this))"

definition shutdown_hook :: "cluster \<Rightarrow> cluster" where
  "shutdown_hook this =
    (if \<not> ready this then emit [Debug] this
     else emit [Broadcast ''cluster:admin:shutdown'' []] this)"

text \<open>
  The entries of the \<^verbatim>\<open>hooks\<close> table whose handler only broadcasts, with the argument
  the event gives the handler.
\<close>

datatype hook =
  IndexCacheAdd "jsvalue jsobject"
  | IndexCacheRemove "jsvalue jsobject"
  | NotifyDocument "jsvalue jsobject"
  | NotifyUser "jsvalue jsobject"
  | ProfileRepository "jsvalue jsobject"
  | RoleRepository "jsvalue jsobject"
  | Specifications
  | AfterResetSecurity
  | AfterDump request
  | AfterShutdown

fun fire :: "hook \<Rightarrow> cluster \<Rightarrow> cluster" where
  "fire (IndexCacheAdd payload) this = indexCacheAdded payload this"
| "fire (IndexCacheRemove payload) this = indexCacheRemoved payload this"
| "fire (NotifyDocument data) this = notifyDocument data this"
| "fire (NotifyUser data) this = notifyUser data this"
| "fire (ProfileRepository d) this = profileUpdated d this"
| "fire (RoleRepository d) this = roleUpdated d this"
| "fire Specifications this = refreshSpecifications this"
| "fire AfterResetSecurity this = resetSecurityCache this"
| "fire (AfterDump request) this = dump request this"
| "fire AfterShutdown this = shutdown_hook this"

text \<open>The events a handler added to the trace.\<close>

definition emitted :: "cluster \<Rightarrow> cluster \<Rightarrow> effect list" where
  "emitted this this' = drop (length (trace this)) (trace this')"

fun is_broadcast :: "effect \<Rightarrow> bool" where
  "is_broadcast (Broadcast topic payload) = True"
| "is_broadcast e = False"

fun is_sadd :: "effect \<Rightarrow> bool" where
  "is_sadd (Sadd k m) = True"
| "is_sadd e = False"

subsection \<open>Locks\<close>

definition roomCreated :: "string \<Rightarrow> cluster \<Rightarrow> cluster" where
  "roomCreated roomId this = this\<lparr>locks_create := insert roomId (locks_create this)\<rparr>"

definition roomDeleted :: "string \<Rightarrow> cluster \<Rightarrow> cluster" where
  "roomDeleted roomId this = this\<lparr>locks_delete := insert roomId (locks_delete this)\<rparr>"

subsection \<open>Subscription pipes\<close>

text \<open>
  A pipe is a chain of promises. The chain runs here as one step, from the state the
  pipe is called in: what other handlers do to the state between two of its callbacks
  is not represented. \<^verbatim>\<open>node.broadcast\<close> is taken to return.
\<close>

text \<open>
  The argument of the subscription pipes. \<open>filters\<close> is the text of the filters when
  they are truthy, and \<open>changed\<close> is \<^term>\<open>Some False\<close> when \<^verbatim>\<open>diff.changed === false\<close>.
\<close>

record customer = path +
  connectionId :: string

record diff = customer +
  roomId :: string
  filters :: "string option"
  changed :: "bool option"

text \<open>
  The argument of \<^verbatim>\<open>subscriptionOff\<close>: \<^verbatim>\<open>object.room\<close> with its \<^verbatim>\<open>id\<close>, and
  \<^verbatim>\<open>object.requestContext.connectionId\<close>.
\<close>

record removal = customer +
  room_id :: string

text \<open>
  \<^verbatim>\<open>_onSubOn (type, index, collection, roomId, result)\<close>, with \<open>result\<close> the pair
  \<^verbatim>\<open>[version, count]\<close> of the script. An exception of \<^verbatim>\<open>setRoomCount\<close> leaves before
  the broadcast.
\<close>

definition state_payload :: "string \<Rightarrow> string \<Rightarrow> string \<Rightarrow> string \<Rightarrow> jsvalue jsobject" where
  "state_payload idx col rid post =
    [(''index'', JStr idx), (''collection'', JStr col), (''roomId'', JStr rid),
     (''event'', JStr ''state''), (''post'', JStr post)]"

definition onSubOn ::
  "string \<Rightarrow> string \<Rightarrow> string \<Rightarrow> string \<Rightarrow> int \<times> int option \<Rightarrow> cluster \<Rightarrow> error option \<times> cluster" where
  "onSubOn post idx col rid result this =
    (let version = fst result; cnt = snd result;
         applied = (if getVersion this idx col < version
                    then (case setRoomCount idx col rid cnt (rooms this) of
                            (e, r) \<Rightarrow> (e, this\<lparr>rooms := r\<rparr>))
                    else (None, this))
     in case fst applied of
          Some e \<Rightarrow> (Some e, snd applied)
        | None \<Rightarrow>
            (None, emit [Debug, Broadcast ''cluster:sync'' (state_payload idx col rid post)]
               (snd applied)))"

text \<open>
  The end of a chain, \<^verbatim>\<open>.then(() => x)\<close>: rejected when the step before threw, and
  resolved with \<open>x\<close> otherwise.
\<close>

definition settle :: "'a \<Rightarrow> error option \<times> cluster \<Rightarrow> 'a outcome \<times> cluster" where
  "settle x r = (case fst r of Some e \<Rightarrow> (Rejected e, snd r) | None \<Rightarrow> (Resolved x, snd r))"

definition serializedFilter :: "diff \<Rightarrow> filter" where
  "serializedFilter d =
    (case filters d of
      None \<Rightarrow> FilterNone
    | Some f \<Rightarrow> FilterJSON (index d) (collection d) f)"

text \<open>
  \<^verbatim>\<open>subscriptionAdded (diff)\<close>. \<open>subOn\<close> and \<open>sadd\<close> are what the coordinator answers
  to the script and to \<^verbatim>\<open>sadd\<close>: a result, or the error the promise is rejected with.
  The last step is the \<^verbatim>\<open>finally\<close> of the chain.
\<close>

definition subscriptionAdded ::
  "error + int \<times> int option \<Rightarrow> error + unit \<Rightarrow> diff \<Rightarrow> cluster \<Rightarrow> diff outcome \<times> cluster" where
  "subscriptionAdded subOn sadd d this =
    (if \<not> ready this then (Resolved d, emit [Debug] this)
     else
       (let this1 = emit [Debug, ClusterSubOn (tag (index d) (collection d)) (uuid this)
                            (roomId d) (connectionId d) (serializedFilter d)] this;
            settled =
              (case subOn of
                Inl e \<Rightarrow> (Rejected e, this1)
              | Inr result \<Rightarrow>
                  (let this2 = emit [Sadd ''cluster:collections''
                                       (index d @ ''/'' @ collection d)] this1
                   in case sadd of
                        Inl e \<Rightarrow> (Rejected e, this2)
                      | Inr u \<Rightarrow>
                          settle d
                            (onSubOn ''add'' (index d) (collection d) (roomId d) result this2)))
        in (fst settled,
            (snd settled)\<lparr>locks_create := locks_create (snd settled) - {roomId d}\<rparr>)))"

definition subscriptionJoined ::
  "error + int \<times> int option \<Rightarrow> diff \<Rightarrow> cluster \<Rightarrow> diff outcome \<times> cluster" where
  "subscriptionJoined subOn d this =
    (if \<not> ready this then (Resolved d, emit [Debug] this)
     else if changed d = Some False then (Resolved d, emit [Debug] this)
     else
       (let this1 = emit [ClusterSubOn (tag (index d) (collection d)) (uuid this)
                            (roomId d) (connectionId d) FilterNone] this
        in case subOn of
             Inl e \<Rightarrow> (Rejected e, this1)
           | Inr result \<Rightarrow>
               settle d (onSubOn ''join'' (index d) (collection d) (roomId d) result this1)))"

text \<open>
  The callback \<^verbatim>\<open>result => {...}\<close> of the chain of \<^verbatim>\<open>subscriptionOff\<close>.
\<close>

definition subOff_then :: "removal \<Rightarrow> int \<times> int option \<Rightarrow> cluster \<Rightarrow> error option \<times> cluster" where
  "subOff_then ob result this =
    (let version = fst result; cnt = snd result;
         applied = (if getVersion this (index ob) (collection ob) < version
                    then (case setRoomCount (index ob) (collection ob) (room_id ob) cnt
                                 (rooms this) of
                            (e, r) \<Rightarrow> (e, this\<lparr>rooms := r\<rparr>))
                    else (None, this))
     in case fst applied of
          Some e \<Rightarrow> (Some e, snd applied)
        | None \<Rightarrow>
            (None, emit [Debug, Broadcast ''cluster:sync''
                     (state_payload (index ob) (collection ob) (room_id ob) ''off'')]
               (snd applied)))"

definition subscriptionOff ::
  "error + int \<times> int option \<Rightarrow> removal \<Rightarrow> cluster \<Rightarrow> removal outcome \<times> cluster" where
  "subscriptionOff subOff ob this =
    (if \<not> ready this then (Resolved ob, emit [Debug] this)
     else
       (let this1 = emit [Debug, ClusterSubOff (tag (index ob) (collection ob)) (uuid this)
                            (room_id ob) (connectionId ob)] this;
            settled =
              (case subOff of
                Inl e \<Rightarrow> (Rejected e, this1)
              | Inr result \<Rightarrow> settle ob (subOff_then ob result this1))
        in (fst settled,
            (snd settled)\<lparr>locks_delete := locks_delete (snd settled) - {room_id ob}\<rparr>)))"

text \<open>
  What the specification says of \<^verbatim>\<open>subscriptionJoined\<close>: nothing when
  \<^verbatim>\<open>changed\<close> is false, and otherwise the steps of \<^verbatim>\<open>subscriptionAdded\<close> with the filter
  \<^verbatim>\<open>'none'\<close> and the post \<^verbatim>\<open>'join'\<close>.
\<close>

definition subscriptionJoined_spec ::
  "error + int \<times> int option \<Rightarrow> error + unit \<Rightarrow> diff \<Rightarrow> cluster \<Rightarrow> diff outcome \<times> cluster" where
  "subscriptionJoined_spec subOn sadd d this =
    (if changed d = Some False then (Resolved d, this)
     else
       (let this1 = emit [ClusterSubOn (tag (index d) (collection d)) (uuid this)
                            (roomId d) (connectionId d) FilterNone] this;
            settled =
              (case subOn of
                Inl e \<Rightarrow> (Rejected e, this1)
              | Inr result \<Rightarrow>
                  (let this2 = emit [Sadd ''cluster:collections''
                                       (index d @ ''/'' @ collection d)] this1
                   in case sadd of
                        Inl e \<Rightarrow> (Rejected e, this2)
                      | Inr u \<Rightarrow>
                          settle d
                            (onSubOn ''join'' (index d) (collection d) (roomId d) result this2)))
        in (fst settled,
            (snd settled)\<lparr>locks_create := locks_create (snd settled) - {roomId d}\<rparr>)))"

subsection \<open>Cleaning a node\<close>

text \<open>
  The argument of \<^verbatim>\<open>cleanNode\<close>: \<^verbatim>\<open>this.node\<close> itself, or the descriptor of a peer.
  The test \<^verbatim>\<open>node === this.node\<close> compares the objects, not their fields.
\<close>

datatype node_ref = ThisNode | Peer descriptor

definition the_node :: "cluster \<Rightarrow> node_ref \<Rightarrow> descriptor" where
  "the_node this n = (case n of ThisNode \<Rightarrow> node this | Peer p \<Rightarrow> p)"

text \<open>The tags of the tree, in the order the two loops of \<^verbatim>\<open>cleanNode\<close> visit them.\<close>

definition tree_tags :: "replica \<Rightarrow> string list" where
  "tree_tags r = concat (map (\<lambda>p. map (\<lambda>q. tag (fst p) (fst q)) (snd p)) (tree r))"

text \<open>\<^verbatim>\<open>Bluebird.all\<close>: rejected when one of the promises is, resolved otherwise.\<close>

fun all_settled :: "(error + unit) list \<Rightarrow> error + unit" where
  "all_settled [] = Inr ()"
| "all_settled (Inl e # rs) = Inl e"
| "all_settled (Inr u # rs) = all_settled rs"

text \<open>
  \<^verbatim>\<open>cleanNode (node)\<close>. \<open>srem\<close>, \<open>reset\<close> and \<open>clean\<close> are what \<^verbatim>\<open>redis.srem\<close>,
  \<^verbatim>\<open>state.reset()\<close> and the \<^verbatim>\<open>clusterCleanNode\<close> script (for a tag) settle to. What
  \<^verbatim>\<open>state.reset()\<close> does to the state is not represented: the call is an event of the
  trace.
\<close>

definition cleanNode ::
  "error + unit \<Rightarrow> error + unit \<Rightarrow> (string \<Rightarrow> error + unit) \<Rightarrow> node_ref \<Rightarrow> cluster \<Rightarrow>
     unit outcome \<times> cluster" where
  "cleanNode srem reset clean n this =
    (let d = the_node this n;
         this1 = emit [Srem ''cluster:discovery''
                         [(''pub'', JStr (pub d)), (''router'', JStr (router d))]] this
     in case srem of
          Inl e \<Rightarrow> (Rejected e, this1)
        | Inr u \<Rightarrow>
            (let step =
               (if n = ThisNode \<and> pool_size this1 = 0
                then (reset, emit [Debug, StateReset] this1)
                else (all_settled (map clean (tree_tags (rooms this1))),
                      emit (map (\<lambda>t. ClusterCleanNode t (uuid d)) (tree_tags (rooms this1)))
                        this1))
             in case fst step of
                  Inl e \<Rightarrow> (Rejected e, snd step)
                | Inr v \<Rightarrow>
                    (Resolved (),
                     emit [Broadcast ''cluster:sync'' [(''event'', JStr ''state:all'')]]
                       (snd step))))"

text \<open>
  \<^verbatim>\<open>_onShutDown (event)\<close>: nothing is returned when the shutdown has begun already.
\<close>

definition onShutDown ::
  "error + unit \<Rightarrow> error + unit \<Rightarrow> (string \<Rightarrow> error + unit) \<Rightarrow> string \<Rightarrow> cluster \<Rightarrow>
     unit outcome option \<times> cluster" where
  "onShutDown srem reset clean event this =
    (if shutdown this then (None, this)
     else
       (let this1 = emit [Log ''warn''
                      (event @ '' kuzzle is shutting down... doing our best to clean rooms'')]
                      (this\<lparr>shutdown := True\<rparr>);
            r = cleanNode srem reset clean ThisNode this1
        in (Some (fst r), snd r)))"

fun is_clean_call :: "effect \<Rightarrow> bool" where
  "is_clean_call (ClusterCleanNode t u) = True"
| "is_clean_call e = False"

subsection \<open>The overrides of the realtime controller\<close>

text \<open>
  \<^verbatim>\<open>this._rooms.flat.get(roomId)\<close> for a value of the request: the keys of the map are
  strings, and a value that is not a string is none of them.
\<close>

definition flat_get :: "replica \<Rightarrow> jsvalue \<Rightarrow> room option" where
  "flat_get r v = (case v of JStr k \<Rightarrow> map_of (flat r) k | _ \<Rightarrow> None)"

text \<open>
  \<^verbatim>\<open>Bluebird.reject(new this.context.errors.E(...))\<close>: reading \<^verbatim>\<open>errors\<close> of an
  undefined \<^verbatim>\<open>this.context\<close> throws a \<^verbatim>\<open>TypeError\<close> before any promise is made.
\<close>

definition reject :: "cluster \<Rightarrow> error \<Rightarrow> 'a outcome" where
  "reject this e = (case ctx this of None \<Rightarrow> Thrown TypeError | Some u \<Rightarrow> Rejected e)"

text \<open>What the promise of \<^verbatim>\<open>then\<close> settles to when its callback ends this way.\<close>

definition in_then :: "'a outcome \<Rightarrow> 'a outcome" where
  "in_then r = (case r of Thrown e \<Rightarrow> Rejected e | Rejected e \<Rightarrow> Rejected e | Resolved x \<Rightarrow> Resolved x)"

text \<open>
  \<^verbatim>\<open>_realtimeCountOverride (request, attempt)\<close>. \<open>later\<close> is the cluster as it stands
  when the delay has passed. The result is the delays waited for and the way the call
  ends; \<^term>\<open>Resolved n\<close> stands for \<^verbatim>\<open>{count: n}\<close>.
\<close>

function realtimeCountOverride ::
  "cluster \<Rightarrow> cluster \<Rightarrow> request \<Rightarrow> nat \<Rightarrow> effect list \<times> int option outcome" where
  "realtimeCountOverride this later request attempt =
    (case body request of
      None \<Rightarrow> ([], reject this BadRequestError)
    | Some b \<Rightarrow>
        (case map_of b ''roomId'' of
          None \<Rightarrow> ([], reject this BadRequestError)
        | Some rid \<Rightarrow>
            (case flat_get (rooms this) rid of
              None \<Rightarrow>
                if attempt > 0 then ([], reject this NotFoundError)
                else
                  (let r = realtimeCountOverride later later request (attempt + 1)
                   in (Delay (waitForMissingRooms this) # fst r, in_then (snd r)))
            | Some room \<Rightarrow> ([], Resolved (count room)))))"
  by pat_completeness auto
termination
  by (relation "measure (\<lambda>(this, later, request, attempt). 1 - attempt)") auto

text \<open>
  The names every plain object inherits from \<^verbatim>\<open>Object.prototype\<close>. Read on an object
  that has no property of its own by that name, each gives a built-in value, which is
  truthy.
\<close>

definition object_prototype :: "string list" where
  "object_prototype =
    [''constructor'', ''__defineGetter__'', ''__defineSetter__'', ''hasOwnProperty'',
     ''__lookupGetter__'', ''__lookupSetter__'', ''isPrototypeOf'', ''propertyIsEnumerable'',
     ''toString'', ''valueOf'', ''__proto__'', ''toLocaleString'']"

type_synonym listing = "int option jsobject jsobject jsobject"

text \<open>
  The callback of \<^verbatim>\<open>isActionAllowed\<close> for an allowed room: the three assignments on
  \<^verbatim>\<open>list\<close>. When the index or the collection is a name of \<^verbatim>\<open>Object.prototype\<close>, the
  test \<^verbatim>\<open>!list[room.index]\<close> (or the one on the collection) reads a built-in value and
  the assignments go to that shared object: this is beyond the embedding, and the
  result is \<^term>\<open>None\<close>. The assignment of a number to the key \<^verbatim>\<open>__proto__\<close> creates no
  property.
\<close>

definition add_room :: "string \<Rightarrow> room \<Rightarrow> listing \<Rightarrow> listing option" where
  "add_room rid room list =
    (if index room \<in> set object_prototype \<or> collection room \<in> set object_prototype then None
     else
       (let list1 = (case map_of list (index room) of
                       None \<Rightarrow> obj_set (index room) [] list
                     | Some cs \<Rightarrow> list);
            cs = (case map_of list1 (index room) of None \<Rightarrow> [] | Some cs \<Rightarrow> cs);
            cs1 = (case map_of cs (collection room) of
                     None \<Rightarrow> obj_set (collection room) [] cs
                   | Some rs \<Rightarrow> cs);
            rs = (case map_of cs1 (collection room) of None \<Rightarrow> [] | Some rs \<Rightarrow> rs);
            rs1 = (if rid = ''__proto__'' then rs else obj_set rid (count room) rs)
        in Some (obj_set (index room) (obj_set (collection room) rs1 cs1) list1)))"

text \<open>
  The loop over \<^verbatim>\<open>flat.entries()\<close>, with \<open>allowed\<close> the answer of
  \<^verbatim>\<open>isActionAllowed\<close> to a search on an index and a collection; the callbacks run in
  the order of the entries, and every \<^verbatim>\<open>isActionAllowed\<close> is taken to answer.
\<close>

fun build_list ::
  "(string \<Rightarrow> string \<Rightarrow> bool) \<Rightarrow> (string \<times> room) list \<Rightarrow> listing \<Rightarrow> listing option" where
  "build_list allowed [] list = Some list"
| "build_list allowed (e # es) list =
    (if allowed (index (snd e)) (collection (snd e))
     then (case add_room (fst e) (snd e) list of
             None \<Rightarrow> None
           | Some list' \<Rightarrow> build_list allowed es list')
     else build_list allowed es list)"

text \<open>
  The innermost loop of the sorted copy: for each room id of
  \<^verbatim>\<open>Object.keys(list[index][collection]).sort()\<close>, the assignment to
  \<^verbatim>\<open>sorted[index][collection][roomId]\<close>.
\<close>

definition copy_rooms :: "int option jsobject \<Rightarrow> int option jsobject \<Rightarrow> int option jsobject" where
  "copy_rooms rs acc =
    fold (\<lambda>k acc. case map_of rs k of None \<Rightarrow> acc | Some n \<Rightarrow> obj_set k n acc)
      (sort (own_keys rs)) acc"

text \<open>
  The two outer loops have one shape: for each key of \<^verbatim>\<open>Object.keys(ob).sort()\<close>, an
  empty object is created at the key when there is none, and the inner loop fills it.
  \<open>copy_step\<close> is the body of such a loop for the key \<open>k\<close>.
\<close>

definition copy_step ::
  "('v \<Rightarrow> 'w list \<Rightarrow> 'w list) \<Rightarrow> 'v jsobject \<Rightarrow> string \<Rightarrow> 'w list jsobject \<Rightarrow>
     'w list jsobject" where
  "copy_step inner ob k acc =
    (let acc1 = (case map_of acc k of None \<Rightarrow> obj_set k [] acc | Some w \<Rightarrow> acc)
     in case map_of ob k of
          None \<Rightarrow> acc1
        | Some v \<Rightarrow>
            (case map_of acc1 k of
              None \<Rightarrow> acc1
            | Some w \<Rightarrow> obj_set k (inner v w) acc1))"

definition copy_sorted ::
  "('v \<Rightarrow> 'w list \<Rightarrow> 'w list) \<Rightarrow> 'v jsobject \<Rightarrow> 'w list jsobject \<Rightarrow> 'w list jsobject" where
  "copy_sorted inner ob acc = fold (copy_step inner ob) (sort (own_keys ob)) acc"

definition sorted_listing :: "listing \<Rightarrow> listing" where
  "sorted_listing list = copy_sorted (copy_sorted copy_rooms) list []"

definition sorted_arg :: "request \<Rightarrow> bool" where
  "sorted_arg request =
    (case map_of (args request) ''sorted'' of None \<Rightarrow> False | Some v \<Rightarrow> truthy v)"

definition realtimeListOverride ::
  "(string \<Rightarrow> string \<Rightarrow> bool) \<Rightarrow> request \<Rightarrow> cluster \<Rightarrow> listing option" where
  "realtimeListOverride allowed request this =
    (case build_list allowed (flat (rooms this)) [] of
      None \<Rightarrow> None
    | Some list \<Rightarrow> if \<not> sorted_arg request then Some list else Some (sorted_listing list))"


subsection \<open>What the list override is to return\<close>











section \<open>A node to run the handlers on\<close>

definition node0 :: descriptor where
  "node0 = \<lparr>uuid = ''u0'', pub = ''tcp://10.0.0.1:7511'', router = ''tcp://10.0.0.1:7510''\<rparr>"

definition diff0 :: diff where
  "diff0 = \<lparr>index = ''i1'', collection = ''c1'', connectionId = ''conn1'', roomId = ''r1'',
     filters = None, changed = None\<rparr>"

definition removal0 :: removal where
  "removal0 = \<lparr>index = ''i1'', collection = ''c1'', connectionId = ''conn1'', room_id = ''r1''\<rparr>"

text \<open>
  A node just constructed, on which the events \<^verbatim>\<open>room:new\<close> and \<^verbatim>\<open>room:remove\<close> have
  fired for the room \<^verbatim>\<open>r1\<close>, and the same node once it is ready.
\<close>

definition locked0 :: cluster where
  "locked0 = roomDeleted ''r1'' (roomCreated ''r1'' (new_cluster ''u0'' node0 (\<lambda>i c. 0) 500))"

definition ready0 :: cluster where
  "ready0 = locked0\<lparr>ready := True\<rparr>"

text \<open>
  The replica of the sorting scenario of the specification, and one whose indexes are
  numbers.
\<close>

definition listing0 :: cluster where
  "listing0 = ready0\<lparr>rooms :=
     \<lparr>flat = [(''R1'', \<lparr>index = ''i2'', collection = ''c2'', count = Some 4\<rparr>),
              (''R2'', \<lparr>index = ''i1'', collection = ''c1'', count = Some 2\<rparr>),
              (''R3'', \<lparr>index = ''i1'', collection = ''c2'', count = Some 3\<rparr>)],
      tree = [(''i2'', [(''c2'', {''R1''})]),
              (''i1'', [(''c1'', {''R2''}), (''c2'', {''R3''})])]\<rparr>\<rparr>"


text \<open>Replicas with a name of \<^verbatim>\<open>Object.prototype\<close> as a room id and as an index.\<close>

definition proto0 :: cluster where
  "proto0 = ready0\<lparr>rooms :=
     \<lparr>flat = [(''__proto__'', \<lparr>index = ''i1'', collection = ''c1'', count = Some 1\<rparr>)],
      tree = [(''i1'', [(''c1'', {''__proto__''})])]\<rparr>\<rparr>"

definition constructor0 :: cluster where
  "constructor0 = ready0\<lparr>rooms :=
     \<lparr>flat = [(''r1'', \<lparr>index = ''constructor'', collection = ''c1'', count = Some 1\<rparr>)],
      tree = [(''constructor'', [(''c1'', {''r1''})])]\<rparr>\<rparr>"

definition sorted_request :: request where
  "sorted_request = \<lparr>body = None, args = [(''sorted'', JBool True)]\<rparr>"

section \<open>Properties of the replica\<close>

lemma tree_get_setRoomCount:
  assumes "cnt \<noteq> Some 0"
  shows "tree_get (snd (setRoomCount idx col rid cnt s)) i c =
    (if i = idx \<and> c = col
     then Some (insert rid (case tree_get s idx col of None \<Rightarrow> {} | Some rs \<Rightarrow> rs))
     else tree_get s i c)"
proof (cases "map_of (tree s) idx")
  case None
  with assms show ?thesis
    by (simp add: setRoomCount_def tree_get_def Let_def update_conv')
next
  case (Some cs)
  with assms show ?thesis
    by (cases "map_of cs col") (simp_all add: setRoomCount_def tree_get_def Let_def update_conv')
qed

lemma flat_setRoomCount:
  assumes "cnt \<noteq> Some 0"
  shows "map_of (flat (snd (setRoomCount idx col rid cnt s))) =
    (map_of (flat s))(rid \<mapsto> \<lparr>index = idx, collection = col, count = cnt\<rparr>)"
  using assms by (simp add: setRoomCount_def Let_def update_conv')

lemma fst_setRoomCount:
  assumes "cnt \<noteq> Some 0"
  shows "fst (setRoomCount idx col rid cnt s) = None"
  using assms by (simp add: setRoomCount_def Let_def)

lemma deleteRoomCount_None:
  assumes "map_of (flat s) rid = None"
  shows "deleteRoomCount rid s = (None, s)"
  using assms by (simp add: deleteRoomCount_def)

lemma flat_snd_deleteRoomCount:
  "flat (snd (deleteRoomCount rid s)) = AList.delete rid (flat s)"
proof (cases "map_of (flat s) rid")
  case None
  then have "rid \<notin> fst ` set (flat s)"
    by (simp add: map_of_eq_None_iff)
  with None show ?thesis
    by (simp add: deleteRoomCount_def delete_id)
next
  case (Some room)
  then show ?thesis
    by (simp add: deleteRoomCount_def Let_def split: option.split)
qed

lemma flat_deleteRoomCount:
  "map_of (flat (snd (deleteRoomCount rid s))) = (map_of (flat s))(rid := None)"
  by (simp add: flat_snd_deleteRoomCount delete_conv')

lemma map_of_delete_empty:
  assumes "AList.delete k al = []" and "c \<noteq> k"
  shows "map_of al c = None"
proof -
  have "map_of (AList.delete k al) c = map_of al c"
    using assms(2) by (simp add: map_of_delete)
  with assms(1) show ?thesis by simp
qed

lemma tree_get_deleteRoomCount:
  assumes "map_of (flat s) rid = Some room"
    and "tree_get s (index room) (collection room) = Some rs"
  shows "tree_get (snd (deleteRoomCount rid s)) i c =
    (if i = index room \<and> c = collection room
     then (if rs - {rid} = {} then None else Some (rs - {rid}))
     else tree_get s i c)"
proof -
  from assms(2) obtain cs where cs: "map_of (tree s) (index room) = Some cs"
    and rs: "map_of cs (collection room) = Some rs"
    by (auto simp: tree_get_def split: option.splits)
  show ?thesis
  proof (cases "rs - {rid} = {}")
    case False
    then show ?thesis
      using assms(1) cs rs
      by (simp add: deleteRoomCount_def tree_get_def Let_def update_conv')
  next
    case True
    show ?thesis
    proof (cases "AList.delete (collection room) cs = []")
      case e: True
      then have "\<And>c'. c' \<noteq> collection room \<Longrightarrow> map_of cs c' = None"
        by (rule map_of_delete_empty)
      then show ?thesis
        using assms(1) cs rs True e
        by (simp add: deleteRoomCount_def tree_get_def Let_def delete_conv')
    next
      case False
      then show ?thesis
        using assms(1) cs rs True
        by (simp add: deleteRoomCount_def tree_get_def Let_def update_conv' delete_conv')
    qed
  qed
qed


lemma fst_deleteRoomCount:
  assumes "flat_in_tree s"
  shows "fst (deleteRoomCount rid s) = None"
proof (cases "map_of (flat s) rid")
  case None
  then show ?thesis by (simp add: deleteRoomCount_def)
next
  case (Some room)
  with assms have "in_tree s rid (index room) (collection room)"
    by (simp add: flat_in_tree_def)
  then obtain cs rs where "map_of (tree s) (index room) = Some cs"
    "map_of cs (collection room) = Some rs"
    by (auto simp: in_tree_def tree_get_def split: option.splits)
  with Some show ?thesis
    by (simp add: deleteRoomCount_def Let_def)
qed

lemma in_tree_setRoomCount:
  assumes "cnt \<noteq> Some 0"
  shows "in_tree (snd (setRoomCount idx col rid cnt s)) r i c =
    (if i = idx \<and> c = col then r = rid \<or> in_tree s r idx col else in_tree s r i c)"
  using assms by (auto simp: in_tree_def tree_get_setRoomCount split: option.splits)

lemma in_tree_deleteRoomCount:
  assumes "map_of (flat s) rid = Some room"
    and "in_tree s rid (index room) (collection room)"
  shows "in_tree (snd (deleteRoomCount rid s)) r i c =
    (if i = index room \<and> c = collection room then r \<noteq> rid \<and> in_tree s r i c
     else in_tree s r i c)"
proof -
  from assms(2) obtain rs where rs: "tree_get s (index room) (collection room) = Some rs"
    by (auto simp: in_tree_def split: option.splits)
  show ?thesis
    using rs by (auto simp: in_tree_def tree_get_deleteRoomCount [OF assms(1) rs])
qed

lemma flat_in_tree_setRoomCount:
  assumes "flat_in_tree s" and "cnt \<noteq> Some 0"
  shows "flat_in_tree (snd (setRoomCount idx col rid cnt s))"
  using assms
  by (auto simp: flat_in_tree_def flat_setRoomCount in_tree_setRoomCount)

lemma flat_in_tree_deleteRoomCount:
  assumes "flat_in_tree s"
  shows "flat_in_tree (snd (deleteRoomCount rid s))"
proof (cases "map_of (flat s) rid")
  case None
  with assms show ?thesis by (simp add: deleteRoomCount_None)
next
  case (Some room)
  with assms have "in_tree s rid (index room) (collection room)"
    by (simp add: flat_in_tree_def)
  note here = this
  show ?thesis
    unfolding flat_in_tree_def
  proof (intro allI impI)
    fix r rm
    assume "map_of (flat (snd (deleteRoomCount rid s))) r = Some rm"
    then have r: "r \<noteq> rid" "map_of (flat s) r = Some rm"
      by (auto simp: flat_deleteRoomCount split: if_splits)
    with assms have "in_tree s r (index rm) (collection rm)"
      by (simp add: flat_in_tree_def)
    with r show "in_tree (snd (deleteRoomCount rid s)) r (index rm) (collection rm)"
      by (auto simp: in_tree_deleteRoomCount [OF Some here])
  qed
qed

lemma flat_in_tree_apply_call:
  assumes "flat_in_tree s"
  shows "flat_in_tree (snd (apply_call c s))"
proof (cases c)
  case (SetRoomCount idx col rid cnt)
  show ?thesis
  proof (cases "cnt = Some 0")
    case True
    with SetRoomCount assms show ?thesis
      by (simp add: setRoomCount_def flat_in_tree_deleteRoomCount)
  next
    case False
    with SetRoomCount assms show ?thesis
      by (simp add: flat_in_tree_setRoomCount)
  qed
next
  case (DeleteRoomCount rid)
  with assms show ?thesis by (simp add: flat_in_tree_deleteRoomCount)
qed

lemma tree_in_flat_setRoomCount:
  assumes "tree_in_flat s" and "cnt \<noteq> Some 0"
    and "same_path (SetRoomCount idx col rid cnt) s"
  shows "tree_in_flat (snd (setRoomCount idx col rid cnt s))"
  unfolding tree_in_flat_def
proof (intro allI impI)
  fix r i c
  let ?s' = "snd (setRoomCount idx col rid cnt s)"
  assume t: "in_tree ?s' r i c"
  show "\<exists>rm. map_of (flat ?s') r = Some rm \<and> index rm = i \<and> collection rm = c"
  proof (cases "r = rid")
    case True
    have "i = idx \<and> c = col"
    proof (rule ccontr)
      assume n: "\<not> (i = idx \<and> c = col)"
      with t assms(2) have "in_tree s r i c"
        by (auto simp: in_tree_setRoomCount split: if_splits)
      with assms(1) obtain rm where "map_of (flat s) r = Some rm" "index rm = i" "collection rm = c"
        unfolding tree_in_flat_def by blast
      with assms(2,3) True n show False by auto
    qed
    with True assms(2) show ?thesis by (simp add: flat_setRoomCount)
  next
    case False
    with t assms(2) have "in_tree s r i c"
      by (auto simp: in_tree_setRoomCount split: if_splits)
    with assms(1) obtain rm where "map_of (flat s) r = Some rm" "index rm = i" "collection rm = c"
      unfolding tree_in_flat_def by blast
    with False assms(2) show ?thesis by (simp add: flat_setRoomCount)
  qed
qed

lemma tree_in_flat_deleteRoomCount:
  assumes "flat_in_tree s" and "tree_in_flat s"
  shows "tree_in_flat (snd (deleteRoomCount rid s))"
proof (cases "map_of (flat s) rid")
  case None
  with assms show ?thesis by (simp add: deleteRoomCount_None)
next
  case (Some room)
  with assms have "in_tree s rid (index room) (collection room)"
    by (simp add: flat_in_tree_def)
  note here = this
  show ?thesis
    unfolding tree_in_flat_def
  proof (intro allI impI)
    fix r i c
    let ?s' = "snd (deleteRoomCount rid s)"
    assume "in_tree ?s' r i c"
    then have t: "in_tree s r i c" "\<not> (i = index room \<and> c = collection room \<and> r = rid)"
      by (auto simp: in_tree_deleteRoomCount [OF Some here] split: if_splits)
    from t(1) assms(2) obtain rm
      where rm: "map_of (flat s) r = Some rm" "index rm = i" "collection rm = c"
      unfolding tree_in_flat_def by blast
    with t(2) Some have "r \<noteq> rid" by auto
    with rm show "\<exists>rm. map_of (flat ?s') r = Some rm \<and> index rm = i \<and> collection rm = c"
      by (simp add: flat_deleteRoomCount)
  qed
qed

lemma tree_in_flat_apply_call:
  assumes "flat_in_tree s" and "tree_in_flat s" and "same_path c s"
  shows "tree_in_flat (snd (apply_call c s))"
proof (cases c)
  case (SetRoomCount idx col rid cnt)
  show ?thesis
  proof (cases "cnt = Some 0")
    case True
    with SetRoomCount assms show ?thesis
      by (simp add: setRoomCount_def tree_in_flat_deleteRoomCount)
  next
    case False
    with SetRoomCount assms show ?thesis
      using tree_in_flat_setRoomCount by simp
  qed
next
  case (DeleteRoomCount rid)
  with assms show ?thesis by (simp add: tree_in_flat_deleteRoomCount)
qed

lemma flat_in_tree_empty: "flat_in_tree empty_rooms"
  by (simp add: flat_in_tree_def empty_rooms_def)

lemma tree_in_flat_empty: "tree_in_flat empty_rooms"
  by (simp add: tree_in_flat_def in_tree_def tree_get_def empty_rooms_def)

lemma flat_in_tree_run:
  assumes "flat_in_tree s"
  shows "flat_in_tree (run calls s)"
  using assms by (induction calls arbitrary: s) (simp_all add: flat_in_tree_apply_call)

lemma tree_in_flat_run:
  assumes "flat_in_tree s" and "tree_in_flat s" and "keeps_path calls s"
  shows "tree_in_flat (run calls s)"
  using assms
  by (induction calls arbitrary: s) (simp_all add: flat_in_tree_apply_call tree_in_flat_apply_call)

lemma replica_consistent_iff:
  assumes "flat_in_tree s" and "tree_in_flat s"
  shows "replica_consistent s"
  unfolding replica_consistent_def
proof (intro conjI allI impI)
  fix rid room
  assume f: "map_of (flat s) rid = Some room"
  with assms(1) show here: "in_tree s rid (index room) (collection room)"
    by (simp add: flat_in_tree_def)
  show "\<exists>!p. in_tree s rid (fst p) (snd p)"
  proof (rule ex1I [of _ "(index room, collection room)"])
    show "in_tree s rid (fst (index room, collection room)) (snd (index room, collection room))"
      using here by simp
  next
    fix p
    assume "in_tree s rid (fst p) (snd p)"
    with assms(2) obtain rm
      where "map_of (flat s) rid = Some rm" "index rm = fst p" "collection rm = snd p"
      unfolding tree_in_flat_def by blast
    with f show "p = (index room, collection room)"
      by (cases p) simp
  qed
next
  fix rid i c
  assume "in_tree s rid i c"
  with assms(2) obtain rm where "map_of (flat s) rid = Some rm"
    unfolding tree_in_flat_def by blast
  then show "map_of (flat s) rid \<noteq> None" by simp
qed

text \<open>
  Claim C1, as the code has it. In every state reached from the empty replica by calls
  of \<^verbatim>\<open>setRoomCount\<close> and \<^verbatim>\<open>deleteRoomCount\<close>, every room of \<^verbatim>\<open>flat\<close> is in the set of
  the tree at the index and collection that \<^verbatim>\<open>flat\<close> stores for it, and no next call
  throws. When no call stores a room id that \<^verbatim>\<open>flat\<close> holds under another index or
  collection, the room is in that set only, and every room id of a set of the tree is in
  \<^verbatim>\<open>flat\<close>.
\<close>

theorem replica_invariant:
  "flat_in_tree (run calls empty_rooms) \<and>
   fst (apply_call c (run calls empty_rooms)) = None \<and>
   (keeps_path calls empty_rooms \<longrightarrow> replica_consistent (run calls empty_rooms))"
proof (intro conjI impI)
  show inv: "flat_in_tree (run calls empty_rooms)"
    by (simp add: flat_in_tree_run flat_in_tree_empty)
  show "fst (apply_call c (run calls empty_rooms)) = None"
  proof (cases c)
    case (SetRoomCount idx col rid cnt)
    with inv show ?thesis
      by (cases "cnt = Some 0")
        (simp_all add: fst_setRoomCount fst_deleteRoomCount setRoomCount_def [of _ _ _ "Some 0"])
  next
    case (DeleteRoomCount rid)
    with inv show ?thesis by (simp add: fst_deleteRoomCount)
  qed
  assume "keeps_path calls empty_rooms"
  then have "tree_in_flat (run calls empty_rooms)"
    by (simp add: tree_in_flat_run flat_in_tree_empty tree_in_flat_empty)
  with inv show "replica_consistent (run calls empty_rooms)"
    by (rule replica_consistent_iff)
qed

text \<open>
  Stored again under another index and collection, a room id stays in the set of the
  first ones.
\<close>

theorem replica_invariant_counterexample:
  "\<not> replica_consistent
     (run [SetRoomCount ''i1'' ''c1'' ''r'' (Some 1), SetRoomCount ''i2'' ''c2'' ''r'' (Some 1)]
        empty_rooms)"
proof
  let ?s = "run [SetRoomCount ''i1'' ''c1'' ''r'' (Some 1),
    SetRoomCount ''i2'' ''c2'' ''r'' (Some 1)] empty_rooms"
  assume "replica_consistent ?s"
  moreover have f: "map_of (flat ?s) ''r'' = Some \<lparr>index = ''i2'', collection = ''c2'', count = Some 1\<rparr>"
    by (simp add: empty_rooms_def setRoomCount_def)
  ultimately have "\<exists>!p. in_tree ?s ''r'' (fst p) (snd p)"
    unfolding replica_consistent_def by blast
  moreover have "in_tree ?s ''r'' (fst (''i1'', ''c1'')) (snd (''i1'', ''c1''))"
    by (simp add: empty_rooms_def setRoomCount_def in_tree_def tree_get_def)
  moreover have "in_tree ?s ''r'' (fst (''i2'', ''c2'')) (snd (''i2'', ''c2''))"
    by (simp add: empty_rooms_def setRoomCount_def in_tree_def tree_get_def)
  ultimately have "(''i1'', ''c1'') = ((''i2'', ''c2'') :: string \<times> string)"
    by (metis (no_types))
  then show False by simp
qed

theorem replica_invariant_witness:
  "keeps_path [SetRoomCount ''i1'' ''c1'' ''r1'' (Some 2), SetRoomCount ''i1'' ''c2'' ''r2'' (Some 1),
      SetRoomCount ''i1'' ''c1'' ''r1'' (Some 3), DeleteRoomCount ''r2''] empty_rooms \<and>
   replica_consistent (run [SetRoomCount ''i1'' ''c1'' ''r1'' (Some 2),
      SetRoomCount ''i1'' ''c2'' ''r2'' (Some 1),
      SetRoomCount ''i1'' ''c1'' ''r1'' (Some 3), DeleteRoomCount ''r2''] empty_rooms) \<and>
   run [SetRoomCount ''i1'' ''c1'' ''r1'' (Some 2), SetRoomCount ''i1'' ''c2'' ''r2'' (Some 1),
      SetRoomCount ''i1'' ''c1'' ''r1'' (Some 3), DeleteRoomCount ''r2''] empty_rooms =
     \<lparr>flat = [(''r1'', \<lparr>index = ''i1'', collection = ''c1'', count = Some 3\<rparr>)],
      tree = [(''i1'', [(''c1'', {''r1''})])]\<rparr>"
proof -
  let ?calls = "[SetRoomCount ''i1'' ''c1'' ''r1'' (Some 2), SetRoomCount ''i1'' ''c2'' ''r2'' (Some 1),
      SetRoomCount ''i1'' ''c1'' ''r1'' (Some 3), DeleteRoomCount ''r2'']"
  have k: "keeps_path ?calls empty_rooms"
    by (simp add: empty_rooms_def setRoomCount_def deleteRoomCount_def)
  have r: "run ?calls empty_rooms =
     \<lparr>flat = [(''r1'', \<lparr>index = ''i1'', collection = ''c1'', count = Some 3\<rparr>)],
      tree = [(''i1'', [(''c1'', {''r1''})])]\<rparr>"
    by (simp add: empty_rooms_def setRoomCount_def deleteRoomCount_def)
  from k replica_invariant [of ?calls] have "replica_consistent (run ?calls empty_rooms)"
    by blast
  with k r show ?thesis by blast
qed

text \<open>
  Claim C10. \<^verbatim>\<open>deleteRoomCount\<close> called with a room id that \<^verbatim>\<open>_rooms.flat\<close> does not
  hold returns without throwing and leaves \<^verbatim>\<open>flat\<close> and \<^verbatim>\<open>tree\<close> as they were.
\<close>

theorem deleteRoomCount_absent:
  assumes "map_of (flat s) rid = None"
  shows "deleteRoomCount rid s = (None, s)"
  using assms by (simp add: deleteRoomCount_def)

theorem deleteRoomCount_absent_witness:
  "map_of (flat \<lparr>flat = [(''r1'', \<lparr>index = ''i1'', collection = ''c1'', count = Some 3\<rparr>)],
      tree = [(''i1'', [(''c1'', {''r1''})])]\<rparr>) ''r2'' = None \<and>
   deleteRoomCount ''r2''
     \<lparr>flat = [(''r1'', \<lparr>index = ''i1'', collection = ''c1'', count = Some 3\<rparr>)],
      tree = [(''i1'', [(''c1'', {''r1''})])]\<rparr> =
     (None, \<lparr>flat = [(''r1'', \<lparr>index = ''i1'', collection = ''c1'', count = Some 3\<rparr>)],
      tree = [(''i1'', [(''c1'', {''r1''})])]\<rparr>)"
  using deleteRoomCount_absent
    [of "\<lparr>flat = [(''r1'', \<lparr>index = ''i1'', collection = ''c1'', count = Some 3\<rparr>)],
      tree = [(''i1'', [(''c1'', {''r1''})])]\<rparr>" "''r2''"]
  by simp

section \<open>Properties of the handlers\<close>

lemmas example_defs = node0_def diff0_def removal0_def locked0_def ready0_def new_cluster_def
  roomCreated_def roomDeleted_def empty_rooms_def

lemma emitted_emit: "emitted this (emit es this) = es"
  by (simp add: emitted_def emit_def)

lemma trace_emit: "trace (emit es this) = trace this @ es"
  by (simp add: emit_def)

lemma rooms_emit: "rooms (emit es this) = rooms this"
  by (simp add: emit_def)

lemma getVersion_emit: "getVersion (emit es this) = getVersion this"
  by (simp add: emit_def)

lemma pool_size_emit: "pool_size (emit es this) = pool_size this"
  by (simp add: emit_def)

lemma locks_create_emit: "locks_create (emit es this) = locks_create this"
  by (simp add: emit_def)

lemma snd_settle: "snd (settle x r) = snd r"
  by (simp add: settle_def split: option.split)

lemma fst_settle:
  "fst (settle x r) = (case fst r of Some e \<Rightarrow> Rejected e | None \<Rightarrow> Resolved x)"
  by (simp add: settle_def split: option.split)

subsection \<open>The version guard\<close>

lemma fst_onSubOn:
  "fst (onSubOn post idx col rid result this) =
    (if getVersion this idx col < fst result
     then fst (setRoomCount idx col rid (snd result) (rooms this)) else None)"
  by (simp add: onSubOn_def Let_def split: prod.splits option.splits)

lemma trace_onSubOn:
  "trace (snd (onSubOn post idx col rid result this)) =
    trace this @
    (if fst (onSubOn post idx col rid result this) = None
     then [Debug, Broadcast ''cluster:sync'' (state_payload idx col rid post)] else [])"
  by (simp add: onSubOn_def Let_def trace_emit split: prod.splits option.splits)

lemma rooms_onSubOn:
  "rooms (snd (onSubOn post idx col rid result this)) =
    (if getVersion this idx col < fst result
     then snd (setRoomCount idx col rid (snd result) (rooms this))
     else rooms this)"
  by (simp add: onSubOn_def Let_def rooms_emit split: prod.splits option.splits)

lemma locks_create_onSubOn:
  "locks_create (snd (onSubOn post idx col rid result this)) = locks_create this"
  by (simp add: onSubOn_def Let_def locks_create_emit split: prod.splits option.splits)

text \<open>The callback of \<^verbatim>\<open>subscriptionOff\<close> is \<^verbatim>\<open>_onSubOn\<close> with the post \<^verbatim>\<open>'off'\<close>.\<close>

lemma subOff_then_eq:
  "subOff_then ob result this =
     onSubOn ''off'' (index ob) (collection ob) (room_id ob) result this"
  by (simp add: subOff_then_def onSubOn_def)

text \<open>
  Claim C2. For a result \<^verbatim>\<open>[version, count]\<close> of the \<^verbatim>\<open>subOn\<close> or \<^verbatim>\<open>subOff\<close> script,
  the handler (\<^verbatim>\<open>_onSubOn\<close> for a subscription or a join, the callback of
  \<^verbatim>\<open>subscriptionOff\<close> for an unsubscription) gives the count to \<^verbatim>\<open>setRoomCount\<close> exactly
  when the version stored for the index and collection is less than the version of
  the result, and leaves the replica as it was otherwise. The scripts are called on a
  ready node only, and there this is what the three pipes do to the replica with the
  result of the script (in \<^verbatim>\<open>subscriptionAdded\<close>, once the \<^verbatim>\<open>sadd\<close> that comes before
  the handler has resolved).
\<close>

theorem version_guard:
  "rooms (snd (onSubOn post idx col rid (version, cnt) this)) =
     (if getVersion this idx col < version
      then snd (setRoomCount idx col rid cnt (rooms this))
      else rooms this) \<and>
   rooms (snd (subOff_then ob (version, cnt) this)) =
     (if getVersion this (index ob) (collection ob) < version
      then snd (setRoomCount (index ob) (collection ob) (room_id ob) cnt (rooms this))
      else rooms this) \<and>
   (ready this \<longrightarrow>
     rooms (snd (subscriptionAdded (Inr (version, cnt)) (Inr ()) d this)) =
       (if getVersion this (index d) (collection d) < version
        then snd (setRoomCount (index d) (collection d) (roomId d) cnt (rooms this))
        else rooms this) \<and>
     (changed d \<noteq> Some False \<longrightarrow>
       rooms (snd (subscriptionJoined (Inr (version, cnt)) d this)) =
         (if getVersion this (index d) (collection d) < version
          then snd (setRoomCount (index d) (collection d) (roomId d) cnt (rooms this))
          else rooms this)) \<and>
     rooms (snd (subscriptionOff (Inr (version, cnt)) ob this)) =
       (if getVersion this (index ob) (collection ob) < version
        then snd (setRoomCount (index ob) (collection ob) (room_id ob) cnt (rooms this))
        else rooms this))"
  by (simp add: subscriptionAdded_def subscriptionJoined_def subscriptionOff_def Let_def
      snd_settle subOff_then_eq rooms_onSubOn rooms_emit getVersion_emit)

text \<open>A newer version is applied, and a version that is not newer is not.\<close>

theorem version_guard_witness:
  "ready ready0 \<and> changed diff0 \<noteq> Some False \<and>
   rooms (snd (subscriptionAdded (Inr (1, Some 2)) (Inr ()) diff0 ready0)) =
     \<lparr>flat = [(''r1'', \<lparr>index = ''i1'', collection = ''c1'', count = Some 2\<rparr>)],
      tree = [(''i1'', [(''c1'', {''r1''})])]\<rparr> \<and>
   rooms (snd (subscriptionJoined (Inr (1, Some 2)) diff0 ready0)) =
     \<lparr>flat = [(''r1'', \<lparr>index = ''i1'', collection = ''c1'', count = Some 2\<rparr>)],
      tree = [(''i1'', [(''c1'', {''r1''})])]\<rparr> \<and>
   rooms (snd (subscriptionOff (Inr (0, Some 2)) removal0 ready0)) = rooms ready0"
proof -
  have r: "ready ready0" by (simp add: ready0_def)
  have c: "changed diff0 \<noteq> Some False" by (simp add: diff0_def)
  have g: "getVersion ready0 ''i1'' ''c1'' = 0" "rooms ready0 = empty_rooms"
    by (simp_all add: example_defs)
  have s: "snd (setRoomCount ''i1'' ''c1'' ''r1'' (Some 2) empty_rooms) =
     \<lparr>flat = [(''r1'', \<lparr>index = ''i1'', collection = ''c1'', count = Some 2\<rparr>)],
      tree = [(''i1'', [(''c1'', {''r1''})])]\<rparr>"
    by (simp add: setRoomCount_def empty_rooms_def)
  have p: "index diff0 = ''i1''" "collection diff0 = ''c1''" "roomId diff0 = ''r1''"
    "index removal0 = ''i1''" "collection removal0 = ''c1''"
    by (simp_all add: diff0_def removal0_def)
  from version_guard [of _ _ _ _ 1 "Some 2" ready0 _ diff0] r c g s p
  have "rooms (snd (subscriptionAdded (Inr (1, Some 2)) (Inr ()) diff0 ready0)) =
     \<lparr>flat = [(''r1'', \<lparr>index = ''i1'', collection = ''c1'', count = Some 2\<rparr>)],
      tree = [(''i1'', [(''c1'', {''r1''})])]\<rparr>"
    "rooms (snd (subscriptionJoined (Inr (1, Some 2)) diff0 ready0)) =
     \<lparr>flat = [(''r1'', \<lparr>index = ''i1'', collection = ''c1'', count = Some 2\<rparr>)],
      tree = [(''i1'', [(''c1'', {''r1''})])]\<rparr>"
    by simp_all
  moreover from version_guard [of _ _ _ _ 0 "Some 2" ready0 removal0] r g p
  have "rooms (snd (subscriptionOff (Inr (0, Some 2)) removal0 ready0)) = rooms ready0"
    by simp
  ultimately show ?thesis using r c by blast
qed

subsection \<open>The count of a room\<close>

lemma realtimeCountOverride_invalid:
  assumes "body request = None \<or> (\<exists>b. body request = Some b \<and> map_of b ''roomId'' = None)"
  shows "realtimeCountOverride this later request attempt =
    ([], case ctx this of None \<Rightarrow> Thrown TypeError | Some u \<Rightarrow> Rejected BadRequestError)"
  using assms by (auto simp: reject_def)

lemma realtimeCountOverride_found:
  assumes "body request = Some b" and "map_of b ''roomId'' = Some (JStr rid)"
    and "map_of (flat (rooms this)) rid = Some room"
  shows "realtimeCountOverride this later request attempt = ([], Resolved (count room))"
  using assms by (simp add: flat_get_def)

lemma realtimeCountOverride_retry:
  assumes "body request = Some b" and "map_of b ''roomId'' = Some (JStr rid)"
    and "map_of (flat (rooms this)) rid = None"
  shows "realtimeCountOverride this later request 0 =
    ([Delay (waitForMissingRooms this)],
     case map_of (flat (rooms later)) rid of
       Some room \<Rightarrow> Resolved (count room)
     | None \<Rightarrow>
         (case ctx later of None \<Rightarrow> Rejected TypeError | Some u \<Rightarrow> Rejected NotFoundError))"
  using assms
  by (simp add: flat_get_def reject_def in_then_def Let_def split: option.splits)

text \<open>
  Claim C3. For a request whose body has a room id, the override of \<^verbatim>\<open>realtime.count\<close>
  resolves with the count of the room when \<^verbatim>\<open>flat\<close> holds it, waits
  \<^verbatim>\<open>waitForMissingRooms\<close> and tries once more when it does not, and fails with a not
  found error when the room is still missing. On the cluster the constructor builds, a
  room missing at both tries ends, after the one delay, in a promise rejected with a
  \<^verbatim>\<open>TypeError\<close>: \<^verbatim>\<open>this.context\<close> is undefined where the error is made.
\<close>

theorem realtimeCountOverride_still_absent:
  "realtimeCountOverride (new_cluster u n v w) (new_cluster u n v w)
     \<lparr>body = Some [(''roomId'', JStr ''r1'')], args = a\<rparr> 0 =
   ([Delay w], Rejected TypeError)"
  by (simp add: new_cluster_def reject_def flat_get_def in_then_def empty_rooms_def)

text \<open>
  Claim C4. For a request without a body, or whose body has no \<^verbatim>\<open>roomId\<close>, the
  override of \<^verbatim>\<open>realtime.count\<close> returns a promise rejected with a \<^verbatim>\<open>BadRequestError\<close>.
  On the cluster the constructor builds the call throws a \<^verbatim>\<open>TypeError\<close> instead, and
  returns no promise.
\<close>

theorem realtimeCountOverride_no_body:
  "realtimeCountOverride (new_cluster u n v w) later \<lparr>body = None, args = a\<rparr> 0 =
     ([], Thrown TypeError) \<and>
   realtimeCountOverride (new_cluster u n v w) later \<lparr>body = Some [], args = a\<rparr> 0 =
     ([], Thrown TypeError)"
  by (simp add: new_cluster_def reject_def)

subsection \<open>Joining a room\<close>

text \<open>
  Claim C5, as the code has it. When \<^verbatim>\<open>changed\<close> is false, and when the node is not
  ready, \<^verbatim>\<open>subscriptionJoined\<close> resolves with the diff and writes a log line only: no
  call on the coordinator, no change of the replica, no broadcast. For any other diff
  on a ready node it ends as the steps of \<^verbatim>\<open>subscriptionAdded\<close> with the filter
  \<^verbatim>\<open>'none'\<close> and the post \<^verbatim>\<open>'join'\<close> would, with the same replica and the same calls
  and broadcast but for the \<^verbatim>\<open>sadd\<close> on \<^verbatim>\<open>cluster:collections\<close>, which it does not
  make. It never changes \<^verbatim>\<open>locks.create\<close>.
\<close>

theorem subscriptionJoined_steps:
  "(\<not> ready this \<or> changed d = Some False \<longrightarrow>
      subscriptionJoined subOn d this = (Resolved d, emit [Debug] this)) \<and>
   (ready this \<and> changed d \<noteq> Some False \<longrightarrow>
      fst (subscriptionJoined subOn d this) =
        fst (subscriptionJoined_spec subOn (Inr ()) d this) \<and>
      rooms (snd (subscriptionJoined subOn d this)) =
        rooms (snd (subscriptionJoined_spec subOn (Inr ()) d this)) \<and>
      emitted this (snd (subscriptionJoined subOn d this)) =
        filter (\<lambda>e. \<not> is_sadd e)
          (emitted this (snd (subscriptionJoined_spec subOn (Inr ()) d this)))) \<and>
   locks_create (snd (subscriptionJoined subOn d this)) = locks_create this"
proof (intro conjI impI)
  assume "\<not> ready this \<or> changed d = Some False"
  then show "subscriptionJoined subOn d this = (Resolved d, emit [Debug] this)"
    by (auto simp: subscriptionJoined_def)
next
  show "locks_create (snd (subscriptionJoined subOn d this)) = locks_create this"
    by (cases subOn)
      (simp_all add: subscriptionJoined_def Let_def snd_settle locks_create_onSubOn
        locks_create_emit)
next
  assume a: "ready this \<and> changed d \<noteq> Some False"
  show "fst (subscriptionJoined subOn d this) =
      fst (subscriptionJoined_spec subOn (Inr ()) d this)"
    using a
    by (cases subOn)
      (simp_all add: subscriptionJoined_def subscriptionJoined_spec_def Let_def fst_settle
        fst_onSubOn getVersion_emit rooms_emit)
  show "rooms (snd (subscriptionJoined subOn d this)) =
      rooms (snd (subscriptionJoined_spec subOn (Inr ()) d this))"
    using a
    by (cases subOn)
      (simp_all add: subscriptionJoined_def subscriptionJoined_spec_def Let_def snd_settle
        rooms_onSubOn getVersion_emit rooms_emit)
  show "emitted this (snd (subscriptionJoined subOn d this)) =
      filter (\<lambda>e. \<not> is_sadd e)
        (emitted this (snd (subscriptionJoined_spec subOn (Inr ()) d this)))"
    using a
    by (cases subOn)
      (simp_all add: subscriptionJoined_def subscriptionJoined_spec_def Let_def snd_settle
        emitted_def trace_onSubOn fst_onSubOn trace_emit getVersion_emit rooms_emit)
qed

theorem subscriptionJoined_counterexample:
  "changed diff0 \<noteq> Some False \<and>
   roomId diff0 \<in> locks_create (snd (subscriptionJoined (Inr (1, Some 2)) diff0 ready0)) \<and>
   Sadd ''cluster:collections'' ''i1/c1'' \<notin>
     set (trace (snd (subscriptionJoined (Inr (1, Some 2)) diff0 ready0))) \<and>
   roomId diff0 \<notin>
     locks_create (snd (subscriptionJoined_spec (Inr (1, Some 2)) (Inr ()) diff0 ready0)) \<and>
   Sadd ''cluster:collections'' ''i1/c1'' \<in>
     set (trace (snd (subscriptionJoined_spec (Inr (1, Some 2)) (Inr ()) diff0 ready0)))"
  by (simp add: example_defs subscriptionJoined_def subscriptionJoined_spec_def Let_def
      settle_def onSubOn_def setRoomCount_def emit_def state_payload_def)

theorem subscriptionJoined_steps_witness:
  "ready ready0 \<and> changed diff0 \<noteq> Some False \<and>
   fst (subscriptionJoined (Inr (1, Some 2)) diff0 ready0) = Resolved diff0 \<and>
   emitted ready0 (snd (subscriptionJoined (Inr (1, Some 2)) diff0 ready0)) =
     [ClusterSubOn ''{i1/c1}'' ''u0'' ''r1'' ''conn1'' FilterNone, Debug,
      Broadcast ''cluster:sync'' (state_payload ''i1'' ''c1'' ''r1'' ''join'')] \<and>
   locks_create (snd (subscriptionJoined (Inr (1, Some 2)) diff0 ready0)) = {''r1''}"
proof -
  have r: "ready ready0 \<and> changed diff0 \<noteq> Some False"
    by (simp add: example_defs)
  have s: "subscriptionJoined_spec (Inr (1, Some 2)) (Inr ()) diff0 ready0 =
    (Resolved diff0,
     ready0\<lparr>rooms := \<lparr>flat = [(''r1'', \<lparr>index = ''i1'', collection = ''c1'', count = Some 2\<rparr>)],
                tree = [(''i1'', [(''c1'', {''r1''})])]\<rparr>,
       trace := [ClusterSubOn ''{i1/c1}'' ''u0'' ''r1'' ''conn1'' FilterNone,
         Sadd ''cluster:collections'' ''i1/c1'', Debug,
         Broadcast ''cluster:sync'' (state_payload ''i1'' ''c1'' ''r1'' ''join'')],
       locks_create := {}\<rparr>)"
    by (simp add: example_defs subscriptionJoined_spec_def Let_def settle_def onSubOn_def
        setRoomCount_def emit_def tag_def)
  have l: "locks_create ready0 = {''r1''}" "trace ready0 = []"
    by (simp_all add: example_defs)
  from subscriptionJoined_steps [of ready0 diff0 "Inr (1, Some 2)"] r s l show ?thesis
    by (simp add: emitted_def)
qed

subsection \<open>Hooks on a node that is not ready\<close>

text \<open>Nine of the ten handlers that only broadcast write a log line and stop.\<close>

lemma not_ready_drop:
  assumes "\<not> ready this" and "h \<noteq> AfterResetSecurity"
  shows "fire h this = emit [Debug] this"
  using assms
  by (cases h)
    (simp_all add: indexCacheAdded_def indexCacheRemoved_def notifyDocument_def notifyUser_def
      profileUpdated_def roleUpdated_def refreshSpecifications_def dump_def shutdown_hook_def)

text \<open>
  Claim C6. When \<^verbatim>\<open>node.ready\<close> is false, a handler that only broadcasts performs no
  broadcast and changes no state. \<^verbatim>\<open>resetSecurityCache\<close> does not test
  \<^verbatim>\<open>node.ready\<close>: on a node that is not ready it broadcasts.
\<close>

theorem resetSecurityCache_not_ready:
  "\<not> ready (this\<lparr>ready := False\<rparr>) \<and>
   emitted (this\<lparr>ready := False\<rparr>) (fire AfterResetSecurity (this\<lparr>ready := False\<rparr>)) =
     [Broadcast ''cluster:admin:resetSecurity'' []]"
  by (simp add: resetSecurityCache_def emit_def emitted_def)

subsection \<open>Locks\<close>

text \<open>
  Claim C7, as the code has it. On a ready node, when the promise of
  \<^verbatim>\<open>subscriptionAdded\<close> settles the room id of the diff is not in \<^verbatim>\<open>locks.create\<close>, and
  when the promise of \<^verbatim>\<open>subscriptionOff\<close> settles the id of the room is not in
  \<^verbatim>\<open>locks.delete\<close>, whatever the coordinator answered.
\<close>

theorem locks_released:
  assumes "ready this"
  shows "roomId d \<notin> locks_create (snd (subscriptionAdded subOn sadd d this)) \<and>
    room_id ob \<notin> locks_delete (snd (subscriptionOff subOff ob this))"
  using assms by (simp add: subscriptionAdded_def subscriptionOff_def Let_def)

text \<open>On a node that is not ready both pipes return at once and the locks stay.\<close>

theorem locks_released_counterexample:
  "roomId diff0 \<in> locks_create (locked0) \<and>
   roomId diff0 \<in>
     locks_create (snd (subscriptionAdded (Inr (1, Some 1)) (Inr ()) diff0 locked0)) \<and>
   room_id removal0 \<in>
     locks_delete (snd (subscriptionOff (Inr (1, Some 0)) removal0 locked0))"
  by (simp add: example_defs subscriptionAdded_def subscriptionOff_def emit_def)

theorem locks_released_witness:
  "ready ready0 \<and>
   roomId diff0 \<in> locks_create ready0 \<and>
   room_id removal0 \<in> locks_delete ready0 \<and>
   roomId diff0 \<notin> locks_create (snd (subscriptionAdded (Inl RedisError) (Inr ()) diff0 ready0)) \<and>
   room_id removal0 \<notin> locks_delete (snd (subscriptionOff (Inr (1, Some 0)) removal0 ready0))"
proof -
  have r: "ready ready0" by (simp add: ready0_def)
  have "roomId diff0 \<in> locks_create ready0" "room_id removal0 \<in> locks_delete ready0"
    by (simp_all add: example_defs)
  with r locks_released [OF r, of diff0 "Inl RedisError" "Inr ()" removal0 "Inr (1, Some 0)"]
  show ?thesis by blast
qed

subsection \<open>The last node to leave\<close>

lemma trace_cleanNode_last:
  assumes "pool_size this = 0"
  shows "trace (snd (cleanNode srem reset clean ThisNode this)) =
    trace this @
    Srem ''cluster:discovery''
      [(''pub'', JStr (pub (node this))), (''router'', JStr (router (node this)))] #
    (case srem of
      Inl e \<Rightarrow> []
    | Inr u \<Rightarrow>
        Debug # StateReset #
        (case reset of
          Inl e \<Rightarrow> []
        | Inr v \<Rightarrow> [Broadcast ''cluster:sync'' [(''event'', JStr ''state:all'')]]))"
  using assms
  by (cases srem; cases reset)
    (simp_all add: cleanNode_def the_node_def Let_def trace_emit pool_size_emit)

text \<open>
  Claim C9, as the code has it. When \<^verbatim>\<open>cleanNode\<close> is called on \<^verbatim>\<open>this.node\<close> and the
  pool is empty, no \<^verbatim>\<open>clusterCleanNode\<close> script is called, and \<^verbatim>\<open>state.reset()\<close> is
  called when the \<^verbatim>\<open>srem\<close> on \<^verbatim>\<open>cluster:discovery\<close> has resolved. The same holds of
  \<^verbatim>\<open>_onShutDown\<close>, which makes that call the first time it runs.
\<close>

theorem last_node_out:
  assumes "pool_size this = 0"
  shows "\<not> list_ex is_clean_call
      (emitted this (snd (cleanNode srem reset clean ThisNode this))) \<and>
    (srem = Inr () \<longrightarrow>
       StateReset \<in> set (emitted this (snd (cleanNode srem reset clean ThisNode this)))) \<and>
    \<not> list_ex is_clean_call
      (emitted this (snd (onShutDown srem reset clean event this))) \<and>
    (\<not> shutdown this \<and> srem = Inr () \<longrightarrow>
       StateReset \<in> set (emitted this (snd (onShutDown srem reset clean event this))))"
proof -
  let ?this1 = "emit [Log ''warn''
    (event @ '' kuzzle is shutting down... doing our best to clean rooms'')]
    (this\<lparr>shutdown := True\<rparr>)"
  from assms have p: "pool_size ?this1 = 0" by (simp add: pool_size_emit)
  have t: "trace ?this1 = trace this @ [Log ''warn''
    (event @ '' kuzzle is shutting down... doing our best to clean rooms'')]"
    by (simp add: trace_emit)
  show ?thesis
    using trace_cleanNode_last [OF assms, of srem reset clean]
      trace_cleanNode_last [OF p, of srem reset clean] t
    by (cases srem; cases reset) (simp_all add: emitted_def onShutDown_def Let_def)
qed

text \<open>When the \<^verbatim>\<open>srem\<close> is rejected the chain stops before \<^verbatim>\<open>state.reset()\<close>.\<close>

theorem last_node_out_counterexample:
  "pool_size listing0 = 0 \<and>
   StateReset \<notin> set (emitted listing0
     (snd (cleanNode (Inl RedisError) (Inr ()) (\<lambda>t. Inr ()) ThisNode listing0)))"
  by (simp add: example_defs listing0_def cleanNode_def Let_def emit_def emitted_def)

theorem last_node_out_witness:
  "pool_size listing0 = 0 \<and>
   \<not> list_ex is_clean_call (emitted listing0
       (snd (cleanNode (Inr ()) (Inr ()) (\<lambda>t. Inr ()) ThisNode listing0))) \<and>
   StateReset \<in> set (emitted listing0
       (snd (cleanNode (Inr ()) (Inr ()) (\<lambda>t. Inr ()) ThisNode listing0)))"
proof -
  have p: "pool_size listing0 = 0"
    by (simp add: example_defs listing0_def)
  from last_node_out [OF p, of "Inr ()" "Inr ()" "\<lambda>t. Inr ()"] p show ?thesis
    by simp
qed

text \<open>With a peer in the pool the script is called for each tag of the tree.\<close>

lemma cleanNode_with_peers:
  "emitted (listing0\<lparr>pool_size := 1\<rparr>)
     (snd (cleanNode (Inr ()) (Inr ()) (\<lambda>t. Inr ()) ThisNode (listing0\<lparr>pool_size := 1\<rparr>))) =
   [Srem ''cluster:discovery''
      [(''pub'', JStr ''tcp://10.0.0.1:7511''), (''router'', JStr ''tcp://10.0.0.1:7510'')],
    ClusterCleanNode ''{i2/c2}'' ''u0'', ClusterCleanNode ''{i1/c1}'' ''u0'',
    ClusterCleanNode ''{i1/c2}'' ''u0'',
    Broadcast ''cluster:sync'' [(''event'', JStr ''state:all'')]]"
  by (simp add: example_defs listing0_def cleanNode_def the_node_def tree_tags_def tag_def
      Let_def emit_def emitted_def)

section \<open>Properties of the list override\<close>



lemma keys_insert_index:
  "fst ` set (insert_index n k v ob) = insert k (fst ` set ob)"
  by (induction ob) (auto split: option.splits)

lemma keys_obj_set: "set (own_keys (obj_set k v ob)) = insert k (set (own_keys ob))"
proof (cases "map_of ob k")
  case None
  then show ?thesis
    by (cases "array_index k") (simp_all add: obj_set_def own_keys_def keys_insert_index)
next
  case (Some w)
  then have "k \<in> fst ` set ob" by (rule map_of_SomeD [THEN imageI [of _ _ fst], simplified])
  with Some show ?thesis
    by (auto simp: obj_set_def own_keys_def update_keys)
qed

lemma distinct_insert_index:
  assumes "distinct (map fst ob)" and "k \<notin> fst ` set ob"
  shows "distinct (map fst (insert_index n k v ob))"
  using assms
proof (induction ob)
  case Nil
  then show ?case by simp
next
  case (Cons p ps)
  then show ?case
    using keys_insert_index [of n k v ps]
    by (auto split: option.splits)
qed

lemma distinct_obj_set:
  assumes "distinct (own_keys ob)"
  shows "distinct (own_keys (obj_set k v ob))"
proof (cases "map_of ob k")
  case None
  then have "k \<notin> fst ` set ob" by (simp add: map_of_eq_None_iff)
  with assms None show ?thesis
    by (cases "array_index k")
      (auto simp: obj_set_def own_keys_def distinct_insert_index)
next
  case (Some w)
  with assms show ?thesis
    by (simp add: obj_set_def own_keys_def distinct_update)
qed














lemma fold_obj_set_keys:
  assumes "\<And>k acc. k \<in> set ks \<Longrightarrow> \<exists>v. F k acc = obj_set k v acc"
  shows "set (own_keys (fold F ks acc)) = set ks \<union> set (own_keys acc)"
  using assms
proof (induction ks arbitrary: acc)
  case Nil
  then show ?case by simp
next
  case (Cons k ks)
  then obtain v where v: "F k acc = obj_set k v acc" by (meson list.set_intros(1))
  from Cons have "set (own_keys (fold F ks (F k acc))) = set ks \<union> set (own_keys (F k acc))"
    by (meson list.set_intros(2))
  with v show ?case by (simp add: keys_obj_set)
qed


lemma fold_obj_set_distinct:
  assumes "\<And>k acc. k \<in> set ks \<Longrightarrow> \<exists>v. F k acc = obj_set k v acc"
    and "distinct (own_keys acc)"
  shows "distinct (own_keys (fold F ks acc))"
  using assms
proof (induction ks arbitrary: acc)
  case Nil
  then show ?case by simp
next
  case (Cons k ks)
  then obtain v where v: "F k acc = obj_set k v acc" by (meson list.set_intros(1))
  with Cons.prems(2) have "distinct (own_keys (F k acc))"
    by (simp add: distinct_obj_set)
  with Cons show ?case by (simp add: list.set_intros(2))
qed



lemma in_own_keys: "k \<in> set (own_keys ob) \<longleftrightarrow> map_of ob k \<noteq> None"
  by (simp add: own_keys_def map_of_eq_None_iff)

lemma copy_rooms_step:
  assumes "k \<in> set (sort (own_keys rs))"
  shows "\<exists>v. (case map_of rs k of None \<Rightarrow> acc | Some n \<Rightarrow> obj_set k n acc) = obj_set k v acc"
  using assms by (auto simp: in_own_keys)


lemma distinct_copy_rooms: "distinct (own_keys (copy_rooms rs []))"
  unfolding copy_rooms_def
  by (rule fold_obj_set_distinct) (simp_all add: copy_rooms_step own_keys_def)













lemma add_room_None:
  assumes "index room \<in> set object_prototype \<or> collection room \<in> set object_prototype"
  shows "add_room rid room l = None"
  using assms by (auto simp: add_room_def)


















text \<open>Evaluating the override.\<close>

lemmas list_defs = realtimeListOverride_def add_room_def object_prototype_def obj_set_def
  array_index_def is_digit_def digits_value_def sorted_arg_def sorted_listing_def
  copy_sorted_def copy_step_def copy_rooms_def own_keys_def sorted_request_def


lemma listing0_unsorted:
  "realtimeListOverride (\<lambda>i c. True) \<lparr>body = None, args = []\<rparr> listing0 =
    Some [(''i2'', [(''c2'', [(''R1'', Some 4)])]),
          (''i1'', [(''c1'', [(''R2'', Some 2)]), (''c2'', [(''R3'', Some 3)])])]"
  by (simp add: list_defs listing0_def ready0_def)


text \<open>
  The names of \<^verbatim>\<open>Object.prototype\<close>: a room whose id is \<^verbatim>\<open>__proto__\<close> is not in the
  result, and a room whose index is such a name takes the callback beyond the
  embedding.
\<close>

lemma proto0_listing:
  "realtimeListOverride (\<lambda>i c. True) \<lparr>body = None, args = []\<rparr> proto0 =
     Some [(''i1'', [(''c1'', [])])]"
  by (simp add: list_defs proto0_def ready0_def)

lemma constructor0_listing:
  "realtimeListOverride (\<lambda>i c. True) \<lparr>body = None, args = []\<rparr> constructor0 = None"
  by (simp add: list_defs constructor0_def ready0_def)


end
